theory Spec2Isabelle
  imports Complex_Main
begin

section \<open>Python values as the handlers of app.py see them\<close>

text \<open>
  Every handler of app.py works on what \<^verbatim>\<open>request.get_json()\<close> and
  \<^verbatim>\<open>json.load\<close> return: \<^verbatim>\<open>None\<close>, booleans, integers, floats, strings, lists
  and dicts. Python integers are unbounded (\<open>int\<close>). A float is idealised as the exact
  rational it denotes: the rounding and the range of IEEE doubles (and with them
  \<^verbatim>\<open>NaN\<close> and \<^verbatim>\<open>Infinity\<close>) are outside this model. A dict is an association list
  that holds each key once, as \<^verbatim>\<open>json.load\<close> leaves it; a lookup takes the first entry.
\<close>

datatype json =
    JNull
  | JBool bool
  | JInt int
  | JFloat rat
  | JStr string
  | JArr "json list"
  | JObj "(string \<times> json) list"

text \<open>The exceptions that the modelled code can raise.\<close>

datatype exn =
    ValueError
  | TypeError
  | AttributeError
  | KeyError
  | FileNotFoundError
  | JSONDecodeError
  | IntegrityError

subsection \<open>\<^verbatim>\<open>dict.get\<close>, subscripts, truthiness, iteration\<close>

definition dict_get :: "(string \<times> json) list \<Rightarrow> string \<Rightarrow> json \<Rightarrow> json" where
  "dict_get d k dflt = (case map_of d k of None \<Rightarrow> dflt | Some v \<Rightarrow> v)"

text \<open>\<^verbatim>\<open>x.get(k, dflt)\<close>: only a dict has the method.\<close>

definition py_get :: "json \<Rightarrow> string \<Rightarrow> json \<Rightarrow> exn + json" where
  "py_get x k dflt = (case x of JObj d \<Rightarrow> Inr (dict_get d k dflt) | _ \<Rightarrow> Inl AttributeError)"

text \<open>\<^verbatim>\<open>x[k]\<close> with a string key: \<^verbatim>\<open>KeyError\<close> on a dict without the key,
  \<^verbatim>\<open>TypeError\<close> on every other value.\<close>

definition py_subscript :: "json \<Rightarrow> string \<Rightarrow> exn + json" where
  "py_subscript x k =
     (case x of
        JObj d \<Rightarrow> (case map_of d k of None \<Rightarrow> Inl KeyError | Some v \<Rightarrow> Inr v)
      | _ \<Rightarrow> Inl TypeError)"

text \<open>Truth value of a Python object, as \<^verbatim>\<open>if not x\<close> and \<^verbatim>\<open>x or y\<close> test it.\<close>

fun truthy :: "json \<Rightarrow> bool" where
  "truthy JNull = False"
| "truthy (JBool b) = b"
| "truthy (JInt n) = (n \<noteq> 0)"
| "truthy (JFloat r) = (r \<noteq> 0)"
| "truthy (JStr s) = (s \<noteq> [])"
| "truthy (JArr xs) = (xs \<noteq> [])"
| "truthy (JObj d) = (d \<noteq> [])"

text \<open>\<^verbatim>\<open>x or y\<close>.\<close>

definition py_or :: "json \<Rightarrow> json \<Rightarrow> json" where
  "py_or x y = (if truthy x then x else y)"

text \<open>What a \<^verbatim>\<open>for\<close> loop (or \<^verbatim>\<open>enumerate\<close>) iterates over: the items of a list, the
  keys of a dict, the characters of a string; nothing else is iterable.\<close>

fun py_iter :: "json \<Rightarrow> exn + json list" where
  "py_iter (JArr xs) = Inr xs"
| "py_iter (JObj d) = Inr (map (\<lambda>kv. JStr (fst kv)) d)"
| "py_iter (JStr s) = Inr (map (\<lambda>c. JStr [c]) s)"
| "py_iter _ = Inl TypeError"

subsection \<open>Strings: \<^verbatim>\<open>str.strip\<close> and \<^verbatim>\<open>int(str)\<close>\<close>

text \<open>The ASCII characters Python counts as whitespace: tab to carriage return
  (9 to 13), the separators 28 to 31, and the space.\<close>

definition is_space :: "char \<Rightarrow> bool" where
  "is_space c = (let n = (of_char c :: nat) in (9 \<le> n \<and> n \<le> 13) \<or> (28 \<le> n \<and> n \<le> 32))"

definition strip :: "string \<Rightarrow> string" where
  "strip s = rev (dropWhile is_space (rev (dropWhile is_space s)))"

definition is_digit :: "char \<Rightarrow> bool" where
  "is_digit c = (let n = (of_char c :: nat) in 48 \<le> n \<and> n \<le> 57)"

definition digit_val :: "char \<Rightarrow> int" where
  "digit_val c = int (of_char c) - 48"

text \<open>Decimal digits, with single underscores allowed between two digits. The flag says
  that the previous character was a digit.\<close>

fun parse_digits :: "bool \<Rightarrow> int \<Rightarrow> string \<Rightarrow> int option" where
  "parse_digits prev acc [] = (if prev then Some acc else None)"
| "parse_digits prev acc (c # cs) =
     (if is_digit c then parse_digits True (10 * acc + digit_val c) cs
      else if c = CHR ''_'' \<and> prev then parse_digits False acc cs
      else None)"

text \<open>\<^verbatim>\<open>int(s)\<close> for a string, base 10: surrounding whitespace is dropped, then an
  optional sign, then the digits. \<open>None\<close> is Python's \<^verbatim>\<open>ValueError\<close>. (Digits outside
  ASCII and the interpreter's limit on the number of digits are not modelled.)\<close>

definition int_of_str :: "string \<Rightarrow> int option" where
  "int_of_str s =
     (case strip s of
        [] \<Rightarrow> None
      | c # cs \<Rightarrow>
          if c = CHR ''-'' then map_option uminus (parse_digits False 0 cs)
          else if c = CHR ''+'' then parse_digits False 0 cs
          else parse_digits False 0 (c # cs))"

subsection \<open>Numbers: \<^verbatim>\<open>int(x)\<close>, \<^verbatim>\<open>isinstance\<close>, \<^verbatim>\<open>round\<close>\<close>

text \<open>\<^verbatim>\<open>int(x)\<close>. A float is truncated towards zero; a boolean is 0 or 1; a string is
  parsed; \<^verbatim>\<open>None\<close>, lists and dicts raise \<^verbatim>\<open>TypeError\<close>.\<close>

fun py_int :: "json \<Rightarrow> exn + int" where
  "py_int (JInt n) = Inr n"
| "py_int (JBool b) = Inr (if b then 1 else 0)"
| "py_int (JFloat r) = Inr (if 0 \<le> r then \<lfloor>r\<rfloor> else \<lceil>r\<rceil>)"
| "py_int (JStr s) = (case int_of_str s of None \<Rightarrow> Inl ValueError | Some n \<Rightarrow> Inr n)"
| "py_int _ = Inl TypeError"

text \<open>\<^verbatim>\<open>isinstance(x, int)\<close>: \<^verbatim>\<open>bool\<close> is a subclass of \<^verbatim>\<open>int\<close> in Python, so it
  holds of \<^verbatim>\<open>True\<close> and \<^verbatim>\<open>False\<close> as well.\<close>

fun isinstance_int :: "json \<Rightarrow> bool" where
  "isinstance_int (JInt n) = True"
| "isinstance_int (JBool b) = True"
| "isinstance_int _ = False"

text \<open>The value of an \<^verbatim>\<open>int\<close> instance (\<^verbatim>\<open>True == 1\<close>, \<^verbatim>\<open>False == 0\<close>).\<close>

fun int_value :: "json \<Rightarrow> int" where
  "int_value (JInt n) = n"
| "int_value (JBool b) = (if b then 1 else 0)"
| "int_value _ = 0"

text \<open>\<^verbatim>\<open>isinstance(x, (int, float))\<close>.\<close>

fun isinstance_number :: "json \<Rightarrow> bool" where
  "isinstance_number (JInt n) = True"
| "isinstance_number (JBool b) = True"
| "isinstance_number (JFloat r) = True"
| "isinstance_number _ = False"

text \<open>The numeric value of a number, \<open>None\<close> for every other object.\<close>

fun number_value :: "json \<Rightarrow> rat option" where
  "number_value (JInt n) = Some (of_int n)"
| "number_value (JBool b) = Some (if b then 1 else 0)"
| "number_value (JFloat r) = Some r"
| "number_value _ = None"

text \<open>\<^verbatim>\<open>round(x, 2)\<close>: to the nearest multiple of 1/100, a tie going to the even
  neighbour.\<close>

definition round_half_even :: "rat \<Rightarrow> int" where
  "round_half_even x =
     (let f = \<lfloor>x\<rfloor>; d = x - of_int f
      in if d < 1 / 2 then f else if 1 / 2 < d then f + 1 else if even f then f else f + 1)"

definition py_round2 :: "rat \<Rightarrow> rat" where
  "py_round2 x = of_int (round_half_even (x * 100)) / 100"

subsection \<open>Equality \<^verbatim>\<open>==\<close> and \<^verbatim>\<open>list.index\<close>\<close>

text \<open>Python compares numbers by value across \<^verbatim>\<open>bool\<close>, \<^verbatim>\<open>int\<close> and \<^verbatim>\<open>float\<close>, lists
  item by item and dicts as sets of key/value pairs, whatever the order of their keys.\<close>

fun py_eq :: "json \<Rightarrow> json \<Rightarrow> bool"
  and py_eq_list :: "json list \<Rightarrow> json list \<Rightarrow> bool"
  and py_eq_items :: "(string \<times> json) list \<Rightarrow> (string \<times> json) list \<Rightarrow> bool"
where
  "py_eq JNull y = (y = JNull)"
| "py_eq (JStr s) y = (y = JStr s)"
| "py_eq (JArr xs) y = (case y of JArr ys \<Rightarrow> py_eq_list xs ys | _ \<Rightarrow> False)"
| "py_eq (JObj a) y =
     (case y of
        JObj b \<Rightarrow> py_eq_items a b \<and> set (map fst b) \<subseteq> set (map fst a)
      | _ \<Rightarrow> False)"
| "py_eq (JBool p) y = (number_value y = Some (if p then 1 else 0))"
| "py_eq (JInt n) y = (number_value y = Some (of_int n))"
| "py_eq (JFloat r) y = (number_value y = Some r)"
| "py_eq_list [] ys = (ys = [])"
| "py_eq_list (x # xs) ys = (case ys of [] \<Rightarrow> False | y # ys' \<Rightarrow> py_eq x y \<and> py_eq_list xs ys')"
| "py_eq_items [] b = True"
| "py_eq_items (kv # a) b =
     (case map_of b (fst kv) of None \<Rightarrow> False | Some w \<Rightarrow> py_eq (snd kv) w \<and> py_eq_items a b)"

text \<open>\<^verbatim>\<open>qs.index(q)\<close> where \<open>q\<close> is the object at position \<open>pos\<close> of \<open>qs\<close>: the first
  position whose item is that very object or is equal to it. (The search starts at
  \<open>j\<close>; \<open>None\<close> is Python's \<^verbatim>\<open>ValueError\<close>.)\<close>

fun index_from :: "nat \<Rightarrow> json list \<Rightarrow> nat \<Rightarrow> json \<Rightarrow> nat option" where
  "index_from j [] pos q = None"
| "index_from j (x # xs) pos q =
     (if j = pos \<or> py_eq x q then Some j else index_from (Suc j) xs pos q)"

definition py_index :: "json list \<Rightarrow> nat \<Rightarrow> json \<Rightarrow> nat option" where
  "py_index qs pos q = index_from 0 qs pos q"

section \<open>The question bank and the Question-Set Selector\<close>

text \<open>\<^verbatim>\<open>QUESTIONS_FILE\<close>: the file may not exist, may hold text that is not JSON, or
  holds the bank, a JSON array of question objects.\<close>

datatype qfile = NoFile | Unparsable | Bank "json list"

text \<open>\<^verbatim>\<open>random.choice([set_a, set_b])\<close>: the random source is a parameter.\<close>

datatype pick = SetA | SetB

record safe_item =
  item_id :: nat
  question :: json
  options :: json

text \<open>The loop of \<^verbatim>\<open>get_questions\<close> over \<^verbatim>\<open>chosen_set\<close>. \<open>pos\<close> is the position in
  \<open>qs\<close> of the object the loop is at (the slices share their objects with \<open>qs\<close>).\<close>

fun safe_items :: "json list \<Rightarrow> nat \<Rightarrow> json list \<Rightarrow> exn + safe_item list" where
  "safe_items qs pos [] = Inr []"
| "safe_items qs pos (q # rest) =
     (case py_index qs pos q of
        None \<Rightarrow> Inl ValueError
      | Some idx \<Rightarrow>
          (case py_subscript q ''question'' of
             Inl e \<Rightarrow> Inl e
           | Inr qu \<Rightarrow>
               (case py_subscript q ''options'' of
                  Inl e \<Rightarrow> Inl e
                | Inr os \<Rightarrow>
                    (case safe_items qs (Suc pos) rest of
                       Inl e \<Rightarrow> Inl e
                     | Inr items \<Rightarrow>
                         Inr (\<lparr>item_id = idx, question = qu, options = os\<rparr> # items)))))"

definition get_questions :: "pick \<Rightarrow> qfile \<Rightarrow> exn + safe_item list" where
  "get_questions choice f =
     (case f of
        NoFile \<Rightarrow> Inr []
      | Unparsable \<Rightarrow> Inl JSONDecodeError
      | Bank qs \<Rightarrow>
          (case choice of
             SetA \<Rightarrow> safe_items qs 0 (take 15 qs)
           | SetB \<Rightarrow> safe_items qs 15 (drop 15 qs)))"

section \<open>The relational store\<close>

text \<open>
  Modelled from the spec: models.py (the tables \<^verbatim>\<open>Participant\<close>, \<^verbatim>\<open>Result\<close>,
  \<^verbatim>\<open>Answer\<close>) and the ORM that app.py calls are not among the source files. The rows
  follow section 3 of the design document and the fields app.py reads and writes:
  a Participant has a unique \<open>regno\<close>; a Result belongs to one Participant and holds
  the integers \<open>correct\<close> and \<open>points\<close> and the number \<open>avg_time\<close> (never null); an
  Answer row belongs to one Result and records the submitted values as they came.
  Primary keys are the positive integers, a new row taking the next unused one.
\<close>

record participant_row =
  pid :: nat
  name :: string
  regno :: string
  college :: string
  dept :: string
  year :: int

record result_row =
  rid :: nat
  participant :: nat
  correct :: int
  points :: int
  avg_time :: rat

record answer_row =
  result :: nat
  question_id :: json
  answer :: json
  time_taken :: json

record world =
  participants :: "participant_row list"
  results :: "result_row list"
  answers :: "answer_row list"
  questions_file :: qfile

definition next_id :: "nat list \<Rightarrow> nat" where
  "next_id ids = Suc (fold max ids 0)"

text \<open>Modelled from the spec: \<^verbatim>\<open>Participant.get(Participant.regno == regno)\<close> and
  \<^verbatim>\<open>get_or_none\<close>; \<open>None\<close> is \<^verbatim>\<open>DoesNotExist\<close>.\<close>

definition participant_get :: "world \<Rightarrow> string \<Rightarrow> participant_row option" where
  "participant_get w r = find (\<lambda>p. regno p = r) (participants w)"

text \<open>Modelled from the spec: \<^verbatim>\<open>Participant.create\<close>; the store itself refuses a
  second row with the same \<open>regno\<close> (\<^verbatim>\<open>IntegrityError\<close>).\<close>

definition participant_create ::
  "world \<Rightarrow> string \<Rightarrow> string \<Rightarrow> string \<Rightarrow> string \<Rightarrow> int \<Rightarrow> exn + participant_row \<times> world" where
  "participant_create w n r c d y =
     (if r \<in> set (map regno (participants w)) then Inl IntegrityError
      else
        let p = \<lparr>pid = next_id (map pid (participants w)), name = n, regno = r,
                 college = c, dept = d, year = y\<rparr>
        in Inr (p, w\<lparr>participants := participants w @ [p]\<rparr>))"

text \<open>Modelled from the spec: \<^verbatim>\<open>Result.get_or_create(participant=p, defaults=...)\<close>:
  the existing row of the participant untouched, or a new row with the defaults.\<close>

definition result_get_or_create ::
  "world \<Rightarrow> nat \<Rightarrow> int \<Rightarrow> int \<Rightarrow> rat \<Rightarrow> result_row \<times> world" where
  "result_get_or_create w p c pts avg =
     (case find (\<lambda>r. participant r = p) (results w) of
        Some r \<Rightarrow> (r, w)
      | None \<Rightarrow>
          let r = \<lparr>rid = next_id (map rid (results w)), participant = p,
                   correct = c, points = pts, avg_time = avg\<rparr>
          in (r, w\<lparr>results := results w @ [r]\<rparr>))"

text \<open>Modelled from the spec: \<^verbatim>\<open>r.save()\<close> writes the fields of \<open>r\<close> to the row with
  its primary key.\<close>

definition result_save :: "world \<Rightarrow> result_row \<Rightarrow> world" where
  "result_save w r = w\<lparr>results := map (\<lambda>x. if rid x = rid r then r else x) (results w)\<rparr>"

text \<open>Modelled from the spec: \<^verbatim>\<open>Answer.delete().where(Answer.result == r).execute()\<close>.\<close>

definition answer_delete :: "world \<Rightarrow> nat \<Rightarrow> world" where
  "answer_delete w r = w\<lparr>answers := filter (\<lambda>a. result a \<noteq> r) (answers w)\<rparr>"

text \<open>Modelled from the spec: \<^verbatim>\<open>Answer.insert_many(rows).execute()\<close>.\<close>

definition answer_insert_many :: "world \<Rightarrow> answer_row list \<Rightarrow> world" where
  "answer_insert_many w rows = w\<lparr>answers := answers w @ rows\<rparr>"

text \<open>The Answer rows of a Result, and the Result of a Participant.\<close>

definition answers_of :: "world \<Rightarrow> nat \<Rightarrow> answer_row list" where
  "answers_of w r = filter (\<lambda>a. result a = r) (answers w)"

definition result_of :: "world \<Rightarrow> participant_row \<Rightarrow> result_row option" where
  "result_of w p = find (\<lambda>r. participant r = pid p) (results w)"

section \<open>Replies\<close>

text \<open>What a handler gives back: a JSON body with its status, or an exception. An
  exception that leaves the handler (\<open>Raised\<close>) becomes the framework's status 500;
  \<open>Handled\<close> is a handler's own \<^verbatim>\<open>except Exception as e\<close> that answers 500 with
  \<^verbatim>\<open>str(e)\<close> as its message.\<close>

datatype reply = Reply nat json | Raised exn | Handled exn

fun http_status :: "reply \<Rightarrow> nat" where
  "http_status (Reply code body) = code"
| "http_status (Raised e) = 500"
| "http_status (Handled e) = 500"

text \<open>\<^verbatim>\<open>jsonify({"success": False, "message": msg}), code\<close>.\<close>

definition failure :: "nat \<Rightarrow> string \<Rightarrow> reply" where
  "failure code msg = Reply code (JObj [(''success'', JBool False), (''message'', JStr msg)])"

text \<open>\<^verbatim>\<open>x.get(k, "").strip()\<close>: \<open>x\<close> has to be a dict and the value a string.\<close>

definition get_stripped :: "json \<Rightarrow> string \<Rightarrow> exn + string" where
  "get_stripped x k =
     (case py_get x k (JStr []) of
        Inl e \<Rightarrow> Inl e
      | Inr v \<Rightarrow> (case v of JStr s \<Rightarrow> Inr (strip s) | _ \<Rightarrow> Inl AttributeError))"

section \<open>Registration\<close>

text \<open>\<^verbatim>\<open>str(data.get("year", "")).strip()\<close> and \<^verbatim>\<open>int(year_raw)\<close>. A string is taken as
  it is and an integer prints as its digits. The text of every other value is not
  empty and never reads as an integer: \<^verbatim>\<open>None\<close>, \<^verbatim>\<open>True\<close>, \<^verbatim>\<open>False\<close>, a float (its
  text has a point, an exponent, \<^verbatim>\<open>inf\<close> or \<^verbatim>\<open>nan\<close>), a list or a dict (a bracket).\<close>

definition year_raw_empty :: "json \<Rightarrow> bool" where
  "year_raw_empty v = (case v of JStr s \<Rightarrow> strip s = [] | _ \<Rightarrow> False)"

definition year_of :: "json \<Rightarrow> int option" where
  "year_of v = (case v of JStr s \<Rightarrow> int_of_str (strip s) | JInt n \<Rightarrow> Some n | _ \<Rightarrow> None)"

text \<open>The body of \<^verbatim>\<open>register\<close> inside its \<^verbatim>\<open>try\<close>.\<close>

definition register_body :: "world \<Rightarrow> json \<Rightarrow> exn + reply \<times> world" where
  "register_body w data =
     (case get_stripped data ''name'' of Inl e \<Rightarrow> Inl e | Inr n \<Rightarrow>
      case get_stripped data ''regno'' of Inl e \<Rightarrow> Inl e | Inr r \<Rightarrow>
      case get_stripped data ''college'' of Inl e \<Rightarrow> Inl e | Inr c \<Rightarrow>
      case get_stripped data ''department'' of Inl e \<Rightarrow> Inl e | Inr d \<Rightarrow>
      case py_get data ''year'' (JStr []) of Inl e \<Rightarrow> Inl e | Inr y \<Rightarrow>
        if n = [] \<or> r = [] \<or> c = [] \<or> d = [] \<or> year_raw_empty y
        then Inr (failure 400 ''Missing fields'', w)
        else
          (case year_of y of
             None \<Rightarrow> Inr (failure 400 ''Year must be a number'', w)
           | Some yr \<Rightarrow>
               (case participant_get w r of
                  Some existing \<Rightarrow>
                    Inr (failure 409 ''Registration already exists for this regno'', w)
                | None \<Rightarrow>
                    (case participant_create w n r c d yr of
                       Inl e \<Rightarrow>
                         if e = IntegrityError
                         then Inr (failure 409 ''Registration already exists for this regno'', w)
                         else Inl e
                     | Inr pw \<Rightarrow>
                         Inr (Reply 200
                                (JObj [(''success'', JBool True),
                                       (''message'', JStr ''Registration successful''),
                                       (''name'', JStr (name (fst pw))),
                                       (''regno'', JStr (regno (fst pw)))]),
                              snd (result_get_or_create (snd pw) (pid (fst pw)) 0 0 0))))))"

definition register :: "world \<Rightarrow> json \<Rightarrow> reply \<times> world" where
  "register w data = (case register_body w data of Inl e \<Rightarrow> (Handled e, w) | Inr rw \<Rightarrow> rw)"

section \<open>The Grading Engine\<close>

text \<open>The three variables of the scoring loop of \<^verbatim>\<open>submit_quiz\<close>: \<^verbatim>\<open>correct\<close>,
  \<^verbatim>\<open>total_time\<close>, \<^verbatim>\<open>time_counts\<close>.\<close>

record tally =
  n_correct :: int
  total_time :: rat
  time_counts :: nat

text \<open>One round of the loop \<^verbatim>\<open>for i, ans in enumerate(answers)\<close>. A \<^verbatim>\<open>continue\<close>
  returns the tally as it is. \<open>py_int\<close> raises only \<^verbatim>\<open>ValueError\<close> and \<^verbatim>\<open>TypeError\<close>,
  the two exceptions the loop catches.\<close>

definition grade_step :: "json list \<Rightarrow> tally \<Rightarrow> nat \<times> json \<Rightarrow> exn + tally" where
  "grade_step questions t ia =
     (case py_get (snd ia) ''qId'' (JInt (int (fst ia))) of Inl e \<Rightarrow> Inl e | Inr qid_raw \<Rightarrow>
      case py_int qid_raw of Inl e \<Rightarrow> Inr t | Inr qid \<Rightarrow>
        if \<not> (0 \<le> qid \<and> qid < int (length questions)) then Inr t
        else
          (case py_get (snd ia) ''selected'' JNull of Inl e \<Rightarrow> Inl e | Inr sel_raw \<Rightarrow>
           case py_int sel_raw of Inl e \<Rightarrow> Inr t | Inr selected \<Rightarrow>
           case py_get (snd ia) ''time_sec'' JNull of Inl e \<Rightarrow> Inl e | Inr time_sec \<Rightarrow>
             let t1 = (case number_value time_sec of
                         Some v \<Rightarrow> t\<lparr>total_time := total_time t + v,
                                     time_counts := time_counts t + 1\<rparr>
                       | None \<Rightarrow> t)
             in (case py_get (questions ! nat qid) ''answer'' JNull of
                   Inl e \<Rightarrow> Inl e
                 | Inr correct_answer \<Rightarrow>
                     Inr (if isinstance_int correct_answer \<and> selected = int_value correct_answer
                          then t1\<lparr>n_correct := n_correct t1 + 1\<rparr>
                          else t1))))"

fun grade_loop :: "json list \<Rightarrow> tally \<Rightarrow> (nat \<times> json) list \<Rightarrow> exn + tally" where
  "grade_loop questions t [] = Inr t"
| "grade_loop questions t (ia # rest) =
     (case grade_step questions t ia of
        Inl e \<Rightarrow> Inl e
      | Inr t' \<Rightarrow> grade_loop questions t' rest)"

text \<open>The second loop of \<^verbatim>\<open>submit_quiz\<close>: one row per submitted item, with the values
  as they came (\<^verbatim>\<open>ans.get(k)\<close> is \<^verbatim>\<open>None\<close> for a key that is not there).\<close>

fun to_insert :: "nat \<Rightarrow> json list \<Rightarrow> exn + answer_row list" where
  "to_insert r [] = Inr []"
| "to_insert r (ans # rest) =
     (case py_get ans ''qId'' JNull of Inl e \<Rightarrow> Inl e | Inr q \<Rightarrow>
      case py_get ans ''selected'' JNull of Inl e \<Rightarrow> Inl e | Inr s \<Rightarrow>
      case py_get ans ''time_sec'' JNull of Inl e \<Rightarrow> Inl e | Inr ts \<Rightarrow>
      case to_insert r rest of Inl e \<Rightarrow> Inl e | Inr rows \<Rightarrow>
        Inr (\<lparr>result = r, question_id = q, answer = s, time_taken = ts\<rparr> # rows))"

text \<open>The part of \<^verbatim>\<open>submit_quiz\<close> after the scoring loop: the Result row is found or
  created, overwritten and saved, its Answer rows are deleted and the new ones
  inserted. No transaction spans these statements.\<close>

definition store_submission :: "world \<Rightarrow> participant_row \<Rightarrow> tally \<Rightarrow> json list \<Rightarrow> reply \<times> world" where
  "store_submission w p t items =
     (let pts = n_correct t * 2;
          avg = (if time_counts t \<noteq> 0 then total_time t / of_nat (time_counts t) else 0);
          rw = result_get_or_create w (pid p) (n_correct t) pts avg;
          r = (fst rw)\<lparr>correct := n_correct t, points := pts, avg_time := avg\<rparr>;
          w1 = answer_delete (result_save (snd rw) r) (rid r)
      in case to_insert (rid r) items of
           Inl e \<Rightarrow> (Raised e, w1)
         | Inr rows \<Rightarrow>
             (Reply 200 (JObj [(''success'', JBool True), (''redirect'', JStr ''/leaderboard'')]),
              answer_insert_many w1 rows))"

definition submit_quiz :: "world \<Rightarrow> json \<Rightarrow> reply \<times> world" where
  "submit_quiz w payload =
     (if \<not> truthy payload then (failure 400 ''No data'', w)
      else
        case get_stripped payload ''name'' of Inl e \<Rightarrow> (Raised e, w) | Inr n \<Rightarrow>
        case get_stripped payload ''regno'' of Inl e \<Rightarrow> (Raised e, w) | Inr r \<Rightarrow>
        case py_get payload ''answers'' (JArr []) of Inl e \<Rightarrow> (Raised e, w) | Inr answers_in \<Rightarrow>
          if r = [] then (failure 400 ''Missing regno'', w)
          else
            (case participant_get w r of
               None \<Rightarrow> (failure 400 ''Please register first'', w)
             | Some p \<Rightarrow>
                 (case questions_file w of
                    NoFile \<Rightarrow> (Raised FileNotFoundError, w)
                  | Unparsable \<Rightarrow> (Raised JSONDecodeError, w)
                  | Bank questions \<Rightarrow>
                      (case py_iter answers_in of
                         Inl e \<Rightarrow> (Raised e, w)
                       | Inr items \<Rightarrow>
                           (case grade_loop questions
                                   \<lparr>n_correct = 0, total_time = 0, time_counts = 0\<rparr>
                                   (enumerate 0 items) of
                              Inl e \<Rightarrow> (Raised e, w)
                            | Inr t \<Rightarrow> store_submission w p t items)))))"

section \<open>The Ranking Service\<close>

text \<open>Modelled from the spec: \<^verbatim>\<open>Result.select(Result, Participant).join(Participant)\<close>,
  the inner join of each Result with the Participant it belongs to.\<close>

definition join_rows :: "world \<Rightarrow> (result_row \<times> participant_row) list" where
  "join_rows w =
     concat (map (\<lambda>r. map (\<lambda>p. (r, p)) (filter (\<lambda>p. pid p = participant r) (participants w)))
                 (results w))"

text \<open>Modelled from the spec:
  \<^verbatim>\<open>.order_by(Result.points.desc(), Result.avg_time.asc())\<close>, the store's sort: more
  points first, and the smaller average time first among equal points. The order
  between rows equal on both keys is the store's; here they stay as they were.\<close>

definition ranks_before :: "result_row \<Rightarrow> result_row \<Rightarrow> bool" where
  "ranks_before a b = (points b < points a \<or> (points a = points b \<and> avg_time a \<le> avg_time b))"

fun insert_ranked ::
  "result_row \<times> participant_row \<Rightarrow> (result_row \<times> participant_row) list \<Rightarrow>
   (result_row \<times> participant_row) list" where
  "insert_ranked x [] = [x]"
| "insert_ranked x (y # ys) =
     (if ranks_before (fst x) (fst y) then x # y # ys else y # insert_ranked x ys)"

fun order_by :: "(result_row \<times> participant_row) list \<Rightarrow> (result_row \<times> participant_row) list" where
  "order_by [] = []"
| "order_by (x # xs) = insert_ranked x (order_by xs)"

text \<open>One dict of the JSON answers; \<^verbatim>\<open>round(float(r.avg_time), 2)\<close> is the average the
  views show (the column is never null, so the \<^verbatim>\<open>None\<close> branch is not taken).\<close>

record entry =
  e_name :: string
  e_regno :: string
  e_correct :: int
  e_points :: int
  e_avg_time :: rat

record ranked_entry = entry +
  rank :: nat

definition entry_of :: "result_row \<times> participant_row \<Rightarrow> entry" where
  "entry_of rp =
     \<lparr>e_name = name (snd rp), e_regno = regno (snd rp), e_correct = correct (fst rp),
      e_points = points (fst rp), e_avg_time = py_round2 (avg_time (fst rp))\<rparr>"

definition leaderboard_api :: "world \<Rightarrow> entry list" where
  "leaderboard_api w = map entry_of (order_by (join_rows w))"

text \<open>\<^verbatim>\<open>admin_api_top\<close>: the same query with \<^verbatim>\<open>.limit(10)\<close>, and \<^verbatim>\<open>"rank": i+1\<close>.\<close>

definition admin_api_top :: "world \<Rightarrow> ranked_entry list" where
  "admin_api_top w =
     map (\<lambda>ir.
            \<lparr>e_name = name (snd (snd ir)), e_regno = regno (snd (snd ir)),
             e_correct = correct (fst (snd ir)), e_points = points (fst (snd ir)),
             e_avg_time = py_round2 (avg_time (fst (snd ir))), rank = fst ir + 1\<rparr>)
         (enumerate 0 (take 10 (order_by (join_rows w))))"

section \<open>The Admin Mutation Gateway\<close>

text \<open>\<^verbatim>\<open>require_admin\<close>: the two configured secrets (environment variables that may be
  unset or empty) and the credentials of the request, if it has any.\<close>

record admin_env =
  ADMIN_USERNAME :: "string option"
  ADMIN_PASSWORD :: "string option"

datatype 'a gated = NotConfigured | Unauthorized | Passed 'a

definition configured :: "string option \<Rightarrow> bool" where
  "configured v = (case v of None \<Rightarrow> False | Some s \<Rightarrow> s \<noteq> [])"

definition require_admin :: "admin_env \<Rightarrow> (string \<times> string) option \<Rightarrow> 'a \<Rightarrow> 'a gated" where
  "require_admin env auth fn =
     (if \<not> (configured (ADMIN_USERNAME env) \<and> configured (ADMIN_PASSWORD env)) then NotConfigured
      else
        case auth of
          None \<Rightarrow> Unauthorized
        | Some up \<Rightarrow>
            if \<not> (Some (fst up) = ADMIN_USERNAME env \<and> Some (snd up) = ADMIN_PASSWORD env)
            then Unauthorized
            else Passed fn)"

text \<open>\<^verbatim>\<open>admin_api_add_question\<close>, the function behind \<^verbatim>\<open>require_admin\<close>. \<open>data\<close> is what
  \<^verbatim>\<open>request.get_json(silent=True)\<close> gave (\<open>JNull\<close> for \<^verbatim>\<open>None\<close>). The bank is read
  leniently: no file and a file that does not parse both count as the empty bank.\<close>

definition read_bank :: "qfile \<Rightarrow> json list" where
  "read_bank f = (case f of Bank qs \<Rightarrow> qs | _ \<Rightarrow> [])"

definition admin_api_add_question :: "qfile \<Rightarrow> json \<Rightarrow> reply \<times> qfile" where
  "admin_api_add_question f data_in =
     (let data = py_or data_in (JObj []) in
      case py_get data ''question'' JNull of Inl e \<Rightarrow> (Raised e, f) | Inr q_raw \<Rightarrow>
      case py_or q_raw (JStr []) of
        JStr s \<Rightarrow>
          (case py_get data ''options'' JNull of Inl e \<Rightarrow> (Raised e, f) | Inr o_raw \<Rightarrow>
           case py_get data ''answer'' JNull of Inl e \<Rightarrow> (Raised e, f) | Inr ans \<Rightarrow>
             let q = strip s; opts = py_or o_raw (JArr []) in
             if q = [] then (failure 400 ''question required'', f)
             else
               (case opts of
                  JArr os \<Rightarrow>
                    if length os < 2
                    then (failure 400 ''options must be a list with at least 2 items'', f)
                    else if \<not> isinstance_int ans
                              \<or> \<not> (0 \<le> int_value ans \<and> int_value ans < int (length os))
                    then (failure 400 ''answer must be a valid index'', f)
                    else
                      let questions =
                            read_bank f @ [JObj [(''question'', JStr q), (''options'', opts),
                                                 (''answer'', ans)]]
                      in (Reply 200
                            (JObj [(''success'', JBool True), (''message'', JStr ''Question added''),
                                   (''count'', JInt (int (length questions)))]),
                          Bank questions)
                | _ \<Rightarrow> (failure 400 ''options must be a list with at least 2 items'', f)))
      | _ \<Rightarrow> (Raised AttributeError, f))"

section \<open>The data of the tests\<close>

text \<open>The bank, the registered participant and the answers of \<^verbatim>\<open>test_submit_quiz_success\<close>
  in test_app.py.\<close>

definition scenario_bank :: "json list" where
  "scenario_bank =
     [JObj [(''question'', JStr ''What is 2+2?''),
            (''options'', JArr [JStr ''3'', JStr ''4'', JStr ''5'', JStr ''6'']),
            (''answer'', JInt 1)],
      JObj [(''question'', JStr ''What is the capital of France?''),
            (''options'', JArr [JStr ''London'', JStr ''Berlin'', JStr ''Paris'', JStr ''Madrid'']),
            (''answer'', JInt 2)]]"

definition scenario_batch :: "json list" where
  "scenario_batch =
     [JObj [(''qId'', JInt 0), (''selected'', JInt 1), (''time_sec'', JInt 10)],
      JObj [(''qId'', JInt 1), (''selected'', JInt 2), (''time_sec'', JInt 15)]]"

definition test_participant :: participant_row where
  "test_participant = \<lparr>pid = 1, name = ''Test User'', regno = ''TEST001'',
            college = ''Test College'', dept = ''Computer Science'', year = 2023\<rparr>"

definition test_world :: world where
  "test_world = \<lparr>participants = [test_participant],
          results = [\<lparr>rid = 1, participant = 1, correct = 1, points = 2, avg_time = 15.5\<rparr>],
          answers = [], questions_file = Bank scenario_bank\<rparr>"

section \<open>What the Grading Engine is to compute\<close>

text \<open>
  The claims about grading speak of the answer items that count, of the items that are
  correct and of the times that enter the average. These definitions say it in those
  words, item by item, with no loop and no running totals; the theorems compare the
  loop of \<^verbatim>\<open>submit_quiz\<close> with them. An item is paired with its position in the batch,
  which stands in for a \<^verbatim>\<open>qId\<close> key that is not there.
\<close>

text \<open>The value is a JSON object (a dict).\<close>

fun is_obj :: "json \<Rightarrow> bool" where
  "is_obj (JObj d) = True"
| "is_obj _ = False"










section \<open>Lemmas about the scoring loop and the store\<close>

lemma isinstance_number_value: "isinstance_number x = (number_value x \<noteq> None)"
  by (cases x) simp_all

lemma py_int_raises: "py_int v = Inl e \<Longrightarrow> e = ValueError \<or> e = TypeError"
  by (cases v) (auto split: option.splits)




lemma find_after_save:
  assumes "find P xs = Some r0" and "P r" and "rid r = rid r0"
  shows "find P (map (\<lambda>x. if rid x = rid r then r else x) xs) = Some r"
  using assms(1)
proof (induction xs)
  case Nil
  then show ?case by simp
next
  case (Cons x xs)
  then show ?case using assms(2,3) by (auto split: if_splits)
qed

lemma to_insert_objs:
  assumes "list_all is_obj items"
  shows "\<exists>rows. to_insert r items = Inr rows \<and> length rows = length items
           \<and> list_all (\<lambda>a. result a = r) rows"
  using assms
proof (induction items)
  case Nil
  then show ?case by simp
next
  case (Cons a items)
  then obtain rows where rows: "to_insert r items = Inr rows" "length rows = length items"
      "list_all (\<lambda>a. result a = r) rows"
    by auto
  from Cons.prems obtain d where "a = JObj d" by (cases a) auto
  then show ?case using rows by (simp add: py_get_def)
qed

lemma find_snoc:
  assumes "\<forall>x \<in> set xs. \<not> P x" and "P y"
  shows "find P (xs @ [y]) = Some y"
  using assms by (induction xs) auto

lemma get_or_create_found:
  assumes "result_get_or_create w p c pts avg = (r0, w1)"
  shows "find (\<lambda>r. participant r = p) (results w1) = Some r0 \<and> participant r0 = p
         \<and> participants w1 = participants w \<and> answers w1 = answers w
         \<and> questions_file w1 = questions_file w"
proof (cases "find (\<lambda>r. participant r = p) (results w)")
  case None
  then have nf: "\<forall>x \<in> set (results w). \<not> participant x = p"
    by (auto simp: find_None_iff)
  define r where "r = \<lparr>rid = next_id (map rid (results w)), participant = p,
                   correct = c, points = pts, avg_time = avg\<rparr>"
  have "participant r = p" by (simp add: r_def)
  from find_snoc[of "results w" "\<lambda>r. participant r = p", OF nf this]
  have "find (\<lambda>r. participant r = p) (results w @ [r]) = Some r" .
  with None assms show ?thesis
    by (auto simp: result_get_or_create_def Let_def r_def)
next
  case (Some r)
  then have "participant r = p" by (auto simp: find_Some_iff)
  with Some assms show ?thesis by (auto simp: result_get_or_create_def)
qed

lemma store_submission_ok:
  assumes "list_all is_obj items"
  shows "\<exists>body w' res.
           store_submission w p t items = (Reply 200 body, w')
         \<and> result_of w' p = Some res
         \<and> correct res = n_correct t
         \<and> points res = n_correct t * 2
         \<and> avg_time res = (if time_counts t \<noteq> 0 then total_time t / of_nat (time_counts t) else 0)
         \<and> to_insert (rid res) items = Inr (answers_of w' (rid res))
         \<and> length (answers_of w' (rid res)) = length items
         \<and> participants w' = participants w \<and> questions_file w' = questions_file w"
proof -
  let ?pts = "n_correct t * 2"
  let ?avg = "if time_counts t \<noteq> 0 then total_time t / of_nat (time_counts t) else 0"
  let ?rw = "result_get_or_create w (pid p) (n_correct t) ?pts ?avg"
  obtain r0 w1 where rw: "?rw = (r0, w1)"
    by (cases ?rw) auto
  define r where "r = r0\<lparr>correct := n_correct t, points := ?pts, avg_time := ?avg\<rparr>"
  from get_or_create_found[OF rw]
  have f0: "find (\<lambda>r. participant r = pid p) (results w1) = Some r0"
    and p0: "participant r0 = pid p"
    and same: "participants w1 = participants w" "questions_file w1 = questions_file w"
    by simp_all
  have rr: "rid r = rid r0" "participant r = pid p" by (simp_all add: r_def p0)
  obtain rows where rows: "to_insert (rid r) items = Inr rows" "length rows = length items"
      "list_all (\<lambda>a. result a = rid r) rows"
    using to_insert_objs[OF assms] by blast
  define w' where "w' = answer_insert_many (answer_delete (result_save w1 r) (rid r)) rows"
  have fs: "fst ?rw = r0" "snd ?rw = w1" by (simp_all only: rw fst_conv snd_conv)
  have run: "store_submission w p t items =
        (Reply 200 (JObj [(''success'', JBool True), (''redirect'', JStr ''/leaderboard'')]), w')"
    unfolding store_submission_def Let_def fs r_def[symmetric]
    by (simp only: rows(1) sum.case w'_def)
  have res: "result_of w' p = Some r"
    using find_after_save[OF f0 rr(2) rr(1)]
    by (simp add: result_of_def w'_def answer_insert_many_def answer_delete_def result_save_def)
  have "filter (\<lambda>a. result a = rid r) rows = rows"
    using rows(3) by (simp add: list_all_iff)
  then have ans: "answers_of w' (rid r) = rows"
    by (simp add: answers_of_def w'_def answer_insert_many_def answer_delete_def result_save_def)
  have keep: "participants w' = participants w" "questions_file w' = questions_file w"
    by (simp_all add: w'_def answer_insert_many_def answer_delete_def result_save_def same)
  have fields: "correct r = n_correct t" "points r = ?pts" "avg_time r = ?avg"
    by (simp_all add: r_def)
  show ?thesis
    using run res ans rows(1,2) keep fields by blast
qed


lemma submit_quiz_graded:
  assumes "get_stripped (JObj d) ''name'' = Inr n"
    and "get_stripped (JObj d) ''regno'' = Inr r"
    and "r \<noteq> []"
    and "participant_get w r = Some p"
    and "questions_file w = Bank qs"
    and "dict_get d ''answers'' (JArr []) = JArr batch"
    and "grade_loop qs \<lparr>n_correct = 0, total_time = 0, time_counts = 0\<rparr> (enumerate 0 batch) = Inr t"
  shows "submit_quiz w (JObj d) = store_submission w p t batch"
proof -
  have "d \<noteq> []"
    using assms(2,3) by (auto simp: get_stripped_def py_get_def dict_get_def strip_def)
  then show ?thesis
    using assms by (simp add: submit_quiz_def py_get_def)
qed


section \<open>Claims about grading\<close>




lemma to_insert_rows:
  assumes "to_insert r items = Inr rows"
  shows "list_all (\<lambda>a. result a = r) rows \<and> length rows = length items"
  using assms
proof (induction items arbitrary: rows)
  case Nil
  then show ?case by simp
next
  case (Cons a items)
  then show ?case by (auto split: sum.splits)
qed

lemma save_twice:
  "map (\<lambda>x. if rid x = rid r then r else x) (map (\<lambda>x. if rid x = rid r then r else x) xs)
     = map (\<lambda>x. if rid x = rid r then r else x) xs"
  by (induction xs) auto

lemma submit_quiz_200:
  assumes "submit_quiz w (JObj d) = (Reply 200 body, w1)"
  shows "\<exists>n r p qs items t.
           get_stripped (JObj d) ''name'' = Inr n
         \<and> get_stripped (JObj d) ''regno'' = Inr r \<and> r \<noteq> []
         \<and> participant_get w r = Some p
         \<and> questions_file w = Bank qs
         \<and> py_iter (dict_get d ''answers'' (JArr [])) = Inr items
         \<and> grade_loop qs \<lparr>n_correct = 0, total_time = 0, time_counts = 0\<rparr> (enumerate 0 items) = Inr t
         \<and> store_submission w p t items = (Reply 200 body, w1)"
  using assms
  by (auto simp: submit_quiz_def failure_def py_get_def
      split: if_splits sum.splits option.splits qfile.splits)

lemma store_submission_again:
  assumes "store_submission w p t items = (Reply 200 body, w1)"
  shows "store_submission w1 p t items = (Reply 200 body, w1)
       \<and> participants w1 = participants w \<and> questions_file w1 = questions_file w
       \<and> (\<exists>res. result_of w1 p = Some res
              \<and> to_insert (rid res) items = Inr (answers_of w1 (rid res))
              \<and> length (answers_of w1 (rid res)) = length items)"
proof -
  let ?pts = "n_correct t * 2"
  let ?avg = "if time_counts t \<noteq> 0 then total_time t / of_nat (time_counts t) else 0"
  let ?rw = "result_get_or_create w (pid p) (n_correct t) ?pts ?avg"
  obtain r0 wa where rw: "?rw = (r0, wa)"
    by (cases ?rw) auto
  define r where "r = r0\<lparr>correct := n_correct t, points := ?pts, avg_time := ?avg\<rparr>"
  have fs: "fst ?rw = r0" "snd ?rw = wa" by (simp_all only: rw fst_conv snd_conv)
  define wb where "wb = answer_delete (result_save wa r) (rid r)"
  have unfold1: "store_submission w p t items =
      (case to_insert (rid r) items of
         Inl e \<Rightarrow> (Raised e, wb)
       | Inr rows \<Rightarrow>
           (Reply 200 (JObj [(''success'', JBool True), (''redirect'', JStr ''/leaderboard'')]),
            answer_insert_many wb rows))"
    unfolding store_submission_def Let_def fs r_def[symmetric] wb_def[symmetric] ..
  with assms obtain rows where rows: "to_insert (rid r) items = Inr rows"
    and w1: "w1 = answer_insert_many wb rows"
    and body: "body = JObj [(''success'', JBool True), (''redirect'', JStr ''/leaderboard'')]"
    by (auto split: sum.splits)
  from to_insert_rows[OF rows]
  have all_r: "list_all (\<lambda>a. result a = rid r) rows" and len: "length rows = length items"
    by simp_all
  from get_or_create_found[OF rw]
  have f0: "find (\<lambda>r. participant r = pid p) (results wa) = Some r0"
    and p0: "participant r0 = pid p"
    and same: "participants wa = participants w" "questions_file wa = questions_file w"
    by simp_all
  have rr: "rid r = rid r0" "participant r = pid p" by (simp_all add: r_def p0)
  have res1: "results w1 = map (\<lambda>x. if rid x = rid r then r else x) (results wa)"
    by (simp add: w1 wb_def answer_insert_many_def answer_delete_def result_save_def)
  have found: "find (\<lambda>r. participant r = pid p) (results w1) = Some r"
    unfolding res1 by (rule find_after_save[OF f0 rr(2) rr(1)])
  have again: "result_get_or_create w1 (pid p) (n_correct t) ?pts ?avg = (r, w1)"
    by (simp only: result_get_or_create_def found option.case)
  have r_same: "r\<lparr>correct := n_correct t, points := ?pts, avg_time := ?avg\<rparr> = r"
    by (simp add: r_def)
  have keep: "filter (\<lambda>a. result a = rid r) rows = rows"
    and drop: "filter (\<lambda>a. result a \<noteq> rid r) rows = []"
    using all_r by (simp_all add: list_all_iff)
  have wb_again: "answer_delete (result_save w1 r) (rid r) = wb"
    by (simp add: w1 wb_def answer_insert_many_def answer_delete_def result_save_def
        save_twice drop)
  have fs2: "fst (result_get_or_create w1 (pid p) (n_correct t) ?pts ?avg) = r"
      "snd (result_get_or_create w1 (pid p) (n_correct t) ?pts ?avg) = w1"
    by (simp_all only: again fst_conv snd_conv)
  have second: "store_submission w1 p t items = (Reply 200 body, w1)"
    unfolding store_submission_def Let_def fs2 r_same wb_again
    by (simp only: rows sum.case w1 body)
  have ans: "answers_of w1 (rid r) = rows"
    by (simp add: answers_of_def w1 wb_def answer_insert_many_def answer_delete_def
        result_save_def keep)
  have res: "result_of w1 p = Some r"
    using found by (simp add: result_of_def)
  have unchanged: "participants w1 = participants w" "questions_file w1 = questions_file w"
    by (simp_all add: w1 wb_def answer_insert_many_def answer_delete_def result_save_def same)
  show ?thesis
    using second res ans rows len unchanged by simp
qed

text \<open>
  C2. When a submission is accepted, submitting the same payload again is accepted too
  and leaves the whole store as the first submission left it: the Result of the
  participant keeps its fields, and after each of the two submissions the Answer rows
  of that Result are the rows built from the batch, one per item.
\<close>

theorem resubmission_idempotent:
  assumes "submit_quiz w (JObj d) = (Reply 200 body, w1)"
    and "dict_get d ''answers'' (JArr []) = JArr batch"
  shows "submit_quiz w1 (JObj d) = (Reply 200 body, w1)
       \<and> (\<exists>r p res. get_stripped (JObj d) ''regno'' = Inr r
             \<and> participant_get w1 r = Some p
             \<and> result_of w1 p = Some res
             \<and> result_of (snd (submit_quiz w1 (JObj d))) p = Some res
             \<and> to_insert (rid res) batch = Inr (answers_of w1 (rid res))
             \<and> length (answers_of w1 (rid res)) = length batch
             \<and> length (answers_of (snd (submit_quiz w1 (JObj d))) (rid res)) = length batch)"
proof -
  from submit_quiz_200[OF assms(1)] assms(2)
  obtain n r p qs t where h: "get_stripped (JObj d) ''name'' = Inr n"
      "get_stripped (JObj d) ''regno'' = Inr r" "r \<noteq> []"
      "participant_get w r = Some p" "questions_file w = Bank qs"
      "grade_loop qs \<lparr>n_correct = 0, total_time = 0, time_counts = 0\<rparr> (enumerate 0 batch) = Inr t"
      "store_submission w p t batch = (Reply 200 body, w1)"
    by auto
  from store_submission_again[OF h(7)]
  obtain res where s: "store_submission w1 p t batch = (Reply 200 body, w1)"
      "participants w1 = participants w" "questions_file w1 = questions_file w"
      "result_of w1 p = Some res"
      "to_insert (rid res) batch = Inr (answers_of w1 (rid res))"
      "length (answers_of w1 (rid res)) = length batch"
    by blast
  have p1: "participant_get w1 r = Some p"
    using h(4) s(2) by (simp add: participant_get_def)
  have q1: "questions_file w1 = Bank qs"
    using h(5) s(3) by simp
  have second: "submit_quiz w1 (JObj d) = (Reply 200 body, w1)"
    using submit_quiz_graded[OF h(1,2,3) p1 q1 assms(2) h(6)] s(1) by simp
  show ?thesis
    using second h(2) p1 s(4,5,6) by simp
qed

theorem resubmission_idempotent_witness:
  "submit_quiz
     (snd (submit_quiz test_world
        (JObj [(''name'', JStr ''Test User''), (''regno'', JStr ''TEST001''),
               (''answers'', JArr scenario_batch)])))
     (JObj [(''name'', JStr ''Test User''), (''regno'', JStr ''TEST001''),
            (''answers'', JArr scenario_batch)])
   = submit_quiz test_world
        (JObj [(''name'', JStr ''Test User''), (''regno'', JStr ''TEST001''),
               (''answers'', JArr scenario_batch)])
   \<and> fst (submit_quiz test_world
        (JObj [(''name'', JStr ''Test User''), (''regno'', JStr ''TEST001''),
               (''answers'', JArr scenario_batch)]))
     = Reply 200 (JObj [(''success'', JBool True), (''redirect'', JStr ''/leaderboard'')])"
proof -
  let ?d = "[(''name'', JStr ''Test User''), (''regno'', JStr ''TEST001''),
             (''answers'', JArr scenario_batch)]"
  let ?body = "JObj [(''success'', JBool True), (''redirect'', JStr ''/leaderboard'')]"
  have first: "fst (submit_quiz test_world (JObj ?d)) = Reply 200 ?body"
    by code_simp
  then have 1: "submit_quiz test_world (JObj ?d)
                  = (Reply 200 ?body, snd (submit_quiz test_world (JObj ?d)))"
    by (metis prod.collapse)
  have 2: "dict_get ?d ''answers'' (JArr []) = JArr scenario_batch"
    by (simp add: dict_get_def)
  from resubmission_idempotent[OF 1 2] 1 first show ?thesis by simp
qed


text \<open>The store after the submission of the scenario: the Result holds 2, 4 and 12.5
  and has two Answer rows.\<close>

definition graded_world :: world where
  "graded_world =
     \<lparr>participants = [test_participant],
      results = [\<lparr>rid = 1, participant = 1, correct = 2, points = 4, avg_time = 12.5\<rparr>],
      answers = [\<lparr>result = 1, question_id = JInt 0, answer = JInt 1, time_taken = JInt 10\<rparr>,
                 \<lparr>result = 1, question_id = JInt 1, answer = JInt 2, time_taken = JInt 15\<rparr>],
      questions_file = Bank scenario_bank\<rparr>"

lemma scenario_submission_world:
  "snd (submit_quiz test_world
        (JObj [(''name'', JStr ''Test User''), (''regno'', JStr ''TEST001''),
               (''answers'', JArr scenario_batch)])) = graded_world"
  by code_simp

text \<open>
  C9. For a registered participant (and a bank file that parses), a submission whose
  \<^verbatim>\<open>answers\<close> is the empty list is accepted, the Result of the participant becomes
  0, 0, 0 and no Answer row of that Result is left, whatever was stored before.
\<close>

theorem empty_submission_resets:
  assumes "get_stripped (JObj d) ''name'' = Inr n"
    and "get_stripped (JObj d) ''regno'' = Inr r"
    and "r \<noteq> []"
    and "participant_get w r = Some p"
    and "questions_file w = Bank qs"
    and "dict_get d ''answers'' (JArr []) = JArr []"
  shows "\<exists>body w' res.
           submit_quiz w (JObj d) = (Reply 200 body, w')
         \<and> result_of w' p = Some res
         \<and> correct res = 0 \<and> points res = 0 \<and> avg_time res = 0
         \<and> answers_of w' (rid res) = []"
proof -
  let ?t = "\<lparr>n_correct = 0, total_time = 0, time_counts = 0\<rparr>"
  have loop: "grade_loop qs ?t (enumerate 0 []) = Inr ?t" by simp
  have run: "submit_quiz w (JObj d) = store_submission w p ?t []"
    by (rule submit_quiz_graded[OF assms loop])
  have "list_all is_obj []" by simp
  from store_submission_ok[OF this, of w p ?t] run show ?thesis by auto
qed

theorem empty_submission_resets_witness:
  "\<exists>body w' res.
      submit_quiz graded_world (JObj [(''regno'', JStr ''TEST001''), (''answers'', JArr [])])
        = (Reply 200 body, w')
    \<and> result_of w' test_participant = Some res
    \<and> correct res = 0 \<and> points res = 0 \<and> avg_time res = 0
    \<and> answers_of w' (rid res) = []
    \<and> length (answers_of graded_world 1) = 2"
proof -
  let ?d = "[(''regno'', JStr ''TEST001''), (''answers'', JArr [])]"
  have 1: "get_stripped (JObj ?d) ''name'' = Inr []"
    by (simp add: get_stripped_def py_get_def dict_get_def strip_def)
  have 2: "get_stripped (JObj ?d) ''regno'' = Inr ''TEST001''"
    by (simp add: get_stripped_def py_get_def dict_get_def strip_def is_space_def)
  have 3: "''TEST001'' \<noteq> []" by simp
  have 4: "participant_get graded_world ''TEST001'' = Some test_participant"
    by (simp add: participant_get_def graded_world_def test_participant_def)
  have 5: "questions_file graded_world = Bank scenario_bank"
    by (simp add: graded_world_def)
  have 6: "dict_get ?d ''answers'' (JArr []) = JArr []"
    by (simp add: dict_get_def)
  have 7: "length (answers_of graded_world 1) = 2"
    by (simp add: answers_of_def graded_world_def)
  from empty_submission_resets[OF 1 2 3 4 5 6] 7 show ?thesis by simp
qed







section \<open>Items without a usable question id\<close>

text \<open>
  C5, as stated, fails: an item with no \<^verbatim>\<open>qId\<close> key is not dropped. The loop reads
  \<^verbatim>\<open>ans.get("qId", i)\<close>, so the item is scored against the question at the item's own
  position in the batch. In the bank of the tests, a lone item without \<^verbatim>\<open>qId\<close> that
  selects 1 in 10 seconds is counted as a correct answer to question 0 and its time
  enters the average.
\<close>

theorem missing_qid_counterexample:
  "result_of
     (snd (submit_quiz test_world
        (JObj [(''regno'', JStr ''TEST001''),
               (''answers'', JArr [JObj [(''selected'', JInt 1), (''time_sec'', JInt 10)]])])))
     test_participant
   = Some \<lparr>rid = 1, participant = 1, correct = 1, points = 2, avg_time = 10\<rparr>"
  by code_simp

lemma grade_loop_append:
  "grade_loop qs t (xs @ ys) =
     (case grade_loop qs t xs of Inl e \<Rightarrow> Inl e | Inr t' \<Rightarrow> grade_loop qs t' ys)"
  by (induction xs arbitrary: t) (auto split: sum.splits)

text \<open>
  C5, amended. An item whose \<^verbatim>\<open>qId\<close> is present and on which \<^verbatim>\<open>int\<close> raises (a
  string that is no number, \<^verbatim>\<open>None\<close>, a list, a dict) is dropped: the round of the
  loop leaves \<^verbatim>\<open>correct\<close>, \<^verbatim>\<open>total_time\<close> and \<^verbatim>\<open>time_counts\<close> as they were, and the
  loop gives the same totals with the item as without it. An item with no \<^verbatim>\<open>qId\<close>
  key is scored as if its \<^verbatim>\<open>qId\<close> were its position in the batch.
\<close>

theorem uncoercible_qid_dropped:
  "(map_of a ''qId'' = Some v \<and> py_int v = Inl e
      \<longrightarrow> grade_step qs t (i, JObj a) = Inr t
        \<and> grade_loop qs t (before @ (i, JObj a) # after) = grade_loop qs t (before @ after))
   \<and> (map_of a ''qId'' = None
      \<longrightarrow> grade_step qs t (i, JObj a) = grade_step qs t (i, JObj ((''qId'', JInt (int i)) # a)))"
proof -
  have step: "grade_step qs t' (i, JObj a) = Inr t'"
    if "map_of a ''qId'' = Some v" "py_int v = Inl e" for t'
    using that by (simp add: grade_step_def py_get_def dict_get_def)
  have "grade_loop qs t (before @ (i, JObj a) # after) = grade_loop qs t (before @ after)"
    if h: "map_of a ''qId'' = Some v" "py_int v = Inl e"
    by (simp add: grade_loop_append step[OF h] split: sum.splits)
  moreover have "grade_step qs t (i, JObj a) = grade_step qs t (i, JObj ((''qId'', JInt (int i)) # a))"
    if "map_of a ''qId'' = None"
    using that by (simp add: grade_step_def py_get_def dict_get_def cong: sum.case_cong)
  ultimately show ?thesis using step by blast
qed

theorem uncoercible_qid_dropped_witness:
  "grade_step scenario_bank \<lparr>n_correct = 3, total_time = 7, time_counts = 2\<rparr>
     (0, JObj [(''qId'', JStr ''abc''), (''selected'', JInt 1), (''time_sec'', JInt 10)])
     = Inr \<lparr>n_correct = 3, total_time = 7, time_counts = 2\<rparr>
   \<and> grade_step scenario_bank \<lparr>n_correct = 3, total_time = 7, time_counts = 2\<rparr>
       (1, JObj [(''selected'', JInt 2), (''time_sec'', JInt 10)])
     = Inr \<lparr>n_correct = 4, total_time = 17, time_counts = 3\<rparr>"
proof -
  let ?t = "\<lparr>n_correct = 3, total_time = 7, time_counts = 2\<rparr>"
  let ?a = "[(''qId'', JStr ''abc''), (''selected'', JInt 1), (''time_sec'', JInt 10)]"
  let ?b = "[(''selected'', JInt 2), (''time_sec'', JInt 10)]"
  have 1: "map_of ?a ''qId'' = Some (JStr ''abc'') \<and> py_int (JStr ''abc'') = Inl ValueError"
    by (simp add: int_of_str_def strip_def is_space_def is_digit_def)
  have 2: "map_of ?b ''qId'' = None" by simp
  have 3: "grade_step scenario_bank ?t (1, JObj ((''qId'', JInt (int 1)) # ?b))
             = Inr \<lparr>n_correct = 4, total_time = 17, time_counts = 3\<rparr>"
    by (simp add: grade_step_def py_get_def dict_get_def scenario_bank_def)
  from uncoercible_qid_dropped[of ?a "JStr ''abc''" ValueError scenario_bank ?t 0 "[]" "[]"] 1
  have "grade_step scenario_bank ?t (0, JObj ?a) = Inr ?t" by blast
  moreover from uncoercible_qid_dropped[of ?b _ _ scenario_bank ?t 1] 2 3
  have "grade_step scenario_bank ?t (1, JObj ?b)
          = Inr \<lparr>n_correct = 4, total_time = 17, time_counts = 3\<rparr>"
    by simp
  ultimately show ?thesis by simp
qed


section \<open>Claims about ranking\<close>

text \<open>Three Results, two of them equal in points and in average time.\<close>

definition tie_world :: world where
  "tie_world =
     \<lparr>participants =
        [\<lparr>pid = 1, name = ''A'', regno = ''R1'', college = ''C'', dept = ''D'', year = 2023\<rparr>,
         \<lparr>pid = 2, name = ''B'', regno = ''R2'', college = ''C'', dept = ''D'', year = 2023\<rparr>,
         \<lparr>pid = 3, name = ''C'', regno = ''R3'', college = ''C'', dept = ''D'', year = 2023\<rparr>],
      results =
        [\<lparr>rid = 1, participant = 1, correct = 1, points = 2, avg_time = 12.5\<rparr>,
         \<lparr>rid = 2, participant = 2, correct = 2, points = 4, avg_time = 20\<rparr>,
         \<lparr>rid = 3, participant = 3, correct = 1, points = 2, avg_time = 12.5\<rparr>],
      answers = [], questions_file = NoFile\<rparr>"

lemma round_half_even_mono:
  assumes "x \<le> y"
  shows "round_half_even x \<le> round_half_even y"
proof -
  have fl: "\<lfloor>x\<rfloor> \<le> \<lfloor>y\<rfloor>" using assms by (rule floor_mono)
  have lo: "\<lfloor>x\<rfloor> \<le> round_half_even x" "\<lfloor>y\<rfloor> \<le> round_half_even y"
    and hi: "round_half_even x \<le> \<lfloor>x\<rfloor> + 1"
    by (simp_all add: round_half_even_def Let_def)
  show ?thesis
  proof (cases "\<lfloor>x\<rfloor> = \<lfloor>y\<rfloor>")
    case True
    then have "x - of_int \<lfloor>x\<rfloor> \<le> y - of_int \<lfloor>y\<rfloor>" using assms by simp
    then show ?thesis using True
      by (auto simp: round_half_even_def Let_def)
  next
    case False
    with fl have "\<lfloor>x\<rfloor> + 1 \<le> \<lfloor>y\<rfloor>" by simp
    with hi lo(2) show ?thesis by linarith
  qed
qed

lemma py_round2_mono: "x \<le> y \<Longrightarrow> py_round2 x \<le> py_round2 y"
  using round_half_even_mono[of "x * 100" "y * 100"]
  by (simp add: py_round2_def divide_right_mono)

lemma ranks_before_total: "ranks_before a b \<or> ranks_before b a"
  by (auto simp: ranks_before_def)

lemma ranks_before_trans: "ranks_before a b \<Longrightarrow> ranks_before b c \<Longrightarrow> ranks_before a c"
  by (auto simp: ranks_before_def)

lemma set_insert_ranked: "set (insert_ranked x ys) = insert x (set ys)"
  by (induction ys) auto

lemma sorted_insert_ranked:
  assumes "sorted_wrt (\<lambda>a b. ranks_before (fst a) (fst b)) ys"
  shows "sorted_wrt (\<lambda>a b. ranks_before (fst a) (fst b)) (insert_ranked x ys)"
  using assms
proof (induction ys)
  case Nil
  then show ?case by simp
next
  case (Cons y ys)
  show ?case
  proof (cases "ranks_before (fst x) (fst y)")
    case True
    with Cons.prems show ?thesis
      by (auto intro: ranks_before_trans)
  next
    case False
    then have "ranks_before (fst y) (fst x)"
      using ranks_before_total by blast
    with False Cons show ?thesis
      by (auto simp: set_insert_ranked)
  qed
qed

lemma sorted_order_by: "sorted_wrt (\<lambda>a b. ranks_before (fst a) (fst b)) (order_by xs)"
  by (induction xs) (simp_all add: sorted_insert_ranked)

lemma admin_top_truncate:
  "map entry.truncate
     (map (\<lambda>ir.
            \<lparr>e_name = name (snd (snd ir)), e_regno = regno (snd (snd ir)),
             e_correct = correct (fst (snd ir)), e_points = points (fst (snd ir)),
             e_avg_time = py_round2 (avg_time (fst (snd ir))), rank = fst ir + 1\<rparr>)
         (enumerate k xs)) = map entry_of xs"
  by (induction xs arbitrary: k) (simp_all add: entry.truncate_def entry_of_def)

lemma admin_top_ranks:
  "map rank
     (map (\<lambda>ir.
            \<lparr>e_name = name (snd (snd ir)), e_regno = regno (snd (snd ir)),
             e_correct = correct (fst (snd ir)), e_points = points (fst (snd ir)),
             e_avg_time = py_round2 (avg_time (fst (snd ir))), rank = fst ir + 1\<rparr>)
         (enumerate k xs)) = [Suc k..<Suc (k + length xs)]"
proof -
  have "map rank
     (map (\<lambda>ir.
            \<lparr>e_name = name (snd (snd ir)), e_regno = regno (snd (snd ir)),
             e_correct = correct (fst (snd ir)), e_points = points (fst (snd ir)),
             e_avg_time = py_round2 (avg_time (fst (snd ir))), rank = fst ir + 1\<rparr>)
         (enumerate k xs)) = map (\<lambda>ir. Suc (fst ir)) (enumerate k xs)"
    by (simp add: comp_def)
  also have "\<dots> = map Suc (map fst (enumerate k xs))"
    by (simp only: map_map comp_def)
  also have "\<dots> = [Suc k..<Suc (k + length xs)]"
    by (simp only: map_fst_enumerate map_Suc_upt)
  finally show ?thesis .
qed

text \<open>
  C7. The entries of \<^verbatim>\<open>leaderboard_api\<close> come in non-increasing \<open>points\<close> and, among
  equal points, in non-decreasing (rounded) average time. \<^verbatim>\<open>admin_api_top\<close> numbers its
  entries 1, 2, 3, ... by position, so entries equal on both keys get adjacent ranks,
  and without the ranks it is the first 10 entries of the same order.
\<close>

theorem ranking_order:
  "sorted_wrt (\<lambda>a b. e_points b < e_points a
                  \<or> (e_points a = e_points b \<and> e_avg_time a \<le> e_avg_time b))
     (leaderboard_api w)
   \<and> map rank (admin_api_top w) = [1..<Suc (length (admin_api_top w))]
   \<and> map entry.truncate (admin_api_top w) = take 10 (leaderboard_api w)"
proof -
  let ?Q = "\<lambda>a b. e_points b < e_points a
                  \<or> (e_points a = e_points b \<and> e_avg_time a \<le> e_avg_time b)"
  have "sorted_wrt (\<lambda>a b. ?Q (entry_of a) (entry_of b)) (order_by (join_rows w))"
    by (rule sorted_wrt_mono_rel[OF _ sorted_order_by])
       (auto simp: ranks_before_def entry_of_def intro: py_round2_mono)
  then have 1: "sorted_wrt ?Q (leaderboard_api w)"
    by (simp add: leaderboard_api_def sorted_wrt_map)
  have len: "length (admin_api_top w) = length (take 10 (order_by (join_rows w)))"
    by (simp add: admin_api_top_def)
  have 2: "map rank (admin_api_top w) = [1..<Suc (length (admin_api_top w))]"
    unfolding len unfolding admin_api_top_def
    using admin_top_ranks[of 0 "take 10 (order_by (join_rows w))"] by simp
  have 3: "map entry.truncate (admin_api_top w) = take 10 (leaderboard_api w)"
    unfolding admin_api_top_def leaderboard_api_def
    by (simp only: admin_top_truncate take_map)
  from 1 2 3 show ?thesis by blast
qed

theorem ranking_order_witness:
  "map e_regno (leaderboard_api tie_world) = [''R2'', ''R1'', ''R3'']
   \<and> map e_points (leaderboard_api tie_world) = [4, 2, 2]
   \<and> map rank (admin_api_top tie_world) = [1, 2, 3]
   \<and> map entry.truncate (admin_api_top tie_world) = take 10 (leaderboard_api tie_world)"
proof -
  have a: "map e_regno (leaderboard_api tie_world) = [''R2'', ''R1'', ''R3'']"
    by code_simp
  have b: "map e_points (leaderboard_api tie_world) = [4, 2, 2]"
    by code_simp
  have c: "length (admin_api_top tie_world) = 3"
    by code_simp
  have d: "[1..<Suc 3] = [1, 2, 3]" by (simp add: upt_conv_Cons)
  from ranking_order[of tie_world] a b c d show ?thesis by simp
qed


section \<open>Claims about registration\<close>

lemma participant_get_member:
  assumes "p \<in> set (participants w)"
  shows "\<exists>q. participant_get w (regno p) = Some q"
proof (cases "participant_get w (regno p)")
  case None
  with assms show ?thesis by (auto simp: participant_get_def find_None_iff)
next
  case (Some q)
  then show ?thesis by simp
qed

lemma int_of_str_empty: "int_of_str [] = None"
  by (simp add: int_of_str_def strip_def)

lemma year_of_not_empty: "year_of v = Some y \<Longrightarrow> \<not> year_raw_empty v"
  by (cases v) (auto simp: year_of_def year_raw_empty_def int_of_str_empty)

text \<open>
  C6. When a participant with the same \<open>regno\<close> is in the store, a registration request
  that passes the field checks (the four texts not blank, the year a number) is
  answered 409, and the store, the participant's row in it, is left as it was.
\<close>

theorem duplicate_registration_conflict:
  assumes "p \<in> set (participants w)"
    and "get_stripped (JObj d) ''regno'' = Inr (regno p)"
    and "regno p \<noteq> []"
    and "get_stripped (JObj d) ''name'' = Inr n" and "n \<noteq> []"
    and "get_stripped (JObj d) ''college'' = Inr c" and "c \<noteq> []"
    and "get_stripped (JObj d) ''department'' = Inr dp" and "dp \<noteq> []"
    and "year_of (dict_get d ''year'' (JStr [])) = Some y"
  shows "register w (JObj d)
           = (failure 409 ''Registration already exists for this regno'', w)
       \<and> http_status (fst (register w (JObj d))) = 409
       \<and> snd (register w (JObj d)) = w"
proof -
  from participant_get_member[OF assms(1)]
  obtain q where q: "participant_get w (regno p) = Some q" by blast
  have ne: "\<not> year_raw_empty (dict_get d ''year'' (JStr []))"
    by (rule year_of_not_empty[OF assms(10)])
  have "register_body w (JObj d)
          = Inr (failure 409 ''Registration already exists for this regno'', w)"
    using assms(2-10) q ne by (simp add: register_body_def py_get_def)
  then show ?thesis by (simp add: register_def failure_def)
qed

theorem duplicate_registration_conflict_witness:
  "register test_world
     (JObj [(''name'', JStr ''Duplicate User''), (''regno'', JStr ''TEST001''),
            (''college'', JStr ''Test College''), (''department'', JStr ''CS''),
            (''year'', JStr ''2023'')])
   = (failure 409 ''Registration already exists for this regno'', test_world)
   \<and> participants test_world = [test_participant]"
proof -
  let ?d = "[(''name'', JStr ''Duplicate User''), (''regno'', JStr ''TEST001''),
            (''college'', JStr ''Test College''), (''department'', JStr ''CS''),
            (''year'', JStr ''2023'')]"
  have 1: "test_participant \<in> set (participants test_world)"
    by (simp add: test_world_def)
  have 2: "get_stripped (JObj ?d) ''regno'' = Inr (regno test_participant)"
    by (simp add: get_stripped_def py_get_def dict_get_def strip_def is_space_def
        test_participant_def)
  have 3: "regno test_participant \<noteq> []" by (simp add: test_participant_def)
  have 4: "get_stripped (JObj ?d) ''name'' = Inr ''Duplicate User''"
    by (simp add: get_stripped_def py_get_def dict_get_def strip_def is_space_def)
  have 5: "get_stripped (JObj ?d) ''college'' = Inr ''Test College''"
    by (simp add: get_stripped_def py_get_def dict_get_def strip_def is_space_def)
  have 6: "get_stripped (JObj ?d) ''department'' = Inr ''CS''"
    by (simp add: get_stripped_def py_get_def dict_get_def strip_def is_space_def)
  have 7: "year_of (dict_get ?d ''year'' (JStr [])) = Some 2023"
    by (simp add: year_of_def dict_get_def int_of_str_def strip_def is_space_def
        is_digit_def digit_val_def)
  have 8: "participants test_world = [test_participant]"
    by (simp add: test_world_def)
  from duplicate_registration_conflict[OF 1 2 3 4 _ 5 _ 6 _ 7] 8 show ?thesis by simp
qed

text \<open>Whatever else the request holds, a registration that names the \<open>regno\<close> of a stored
  participant leaves the store unchanged and is answered 400, 409 or 500.\<close>

lemma register_existing_unchanged:
  assumes "p \<in> set (participants w)"
    and "get_stripped data ''regno'' = Inr (regno p)"
  shows "snd (register w data) = w \<and> http_status (fst (register w data)) \<in> {400, 409, 500}"
proof -
  from participant_get_member[OF assms(1)]
  obtain q where q: "participant_get w (regno p) = Some q" by blast
  show ?thesis
    using assms(2) q
    by (auto simp: register_def register_body_def failure_def
        split: sum.splits option.splits if_splits)
qed


section \<open>Claims about the Question-Set Selector\<close>

text \<open>A bank entry that \<^verbatim>\<open>get_questions\<close> can show: a dict with the keys
  \<^verbatim>\<open>question\<close> and \<^verbatim>\<open>options\<close>.\<close>

definition has_question_keys :: "json \<Rightarrow> bool" where
  "has_question_keys q =
     (case q of
        JObj d \<Rightarrow> map_of d ''question'' \<noteq> None \<and> map_of d ''options'' \<noteq> None
      | _ \<Rightarrow> False)"

text \<open>A bank that holds the same question twice.\<close>

definition twin_bank :: "json list" where
  "twin_bank = [hd scenario_bank, hd scenario_bank]"

lemma index_from_found:
  "j \<le> pos \<Longrightarrow> pos < j + length xs \<Longrightarrow> \<exists>k. index_from j xs pos q = Some k \<and> j \<le> k \<and> k \<le> pos"
proof (induction xs arbitrary: j)
  case Nil
  then show ?case by simp
next
  case (Cons x xs)
  show ?case
  proof (cases "j = pos \<or> py_eq x q")
    case True
    with Cons.prems show ?thesis by auto
  next
    case False
    with Cons.prems have "Suc j \<le> pos" "pos < Suc j + length xs" by auto
    from Cons.IH[OF this] False show ?thesis by auto
  qed
qed

lemma index_from_first:
  "j \<le> pos \<Longrightarrow> pos < j + length xs \<Longrightarrow> (\<forall>k < pos - j. \<not> py_eq (xs ! k) q)
     \<Longrightarrow> index_from j xs pos q = Some pos"
proof (induction xs arbitrary: j)
  case Nil
  then show ?case by simp
next
  case (Cons x xs)
  show ?case
  proof (cases "j = pos")
    case True
    then show ?thesis by simp
  next
    case False
    with Cons.prems have lt: "Suc j \<le> pos" "pos < Suc j + length xs" by auto
    from Cons.prems(3) False lt have x: "\<not> py_eq x q"
      by (metis nth_Cons_0 zero_less_diff Suc_le_eq)
    have "\<forall>k < pos - Suc j. \<not> py_eq (xs ! k) q"
    proof (intro allI impI)
      fix k assume "k < pos - Suc j"
      then have "Suc k < pos - j" by simp
      with Cons.prems(3) have "\<not> py_eq ((x # xs) ! Suc k) q" by blast
      then show "\<not> py_eq (xs ! k) q" by simp
    qed
    from Cons.IH[OF lt this] False x show ?thesis by simp
  qed
qed

lemma safe_items_ok:
  assumes "\<forall>q \<in> set rest. has_question_keys q" and "pos + length rest \<le> length qs"
  shows "\<exists>items. safe_items qs pos rest = Inr items
          \<and> length items = length rest
          \<and> map (\<lambda>it. Inr (question it)) items = map (\<lambda>q. py_subscript q ''question'') rest
          \<and> map (\<lambda>it. Inr (options it)) items = map (\<lambda>q. py_subscript q ''options'') rest"
  using assms
proof (induction rest arbitrary: pos)
  case Nil
  then show ?case by simp
next
  case (Cons q rest)
  from Cons.prems have "0 \<le> pos" "pos < 0 + length qs" by simp_all
  from index_from_found[OF this]
  obtain k where k: "py_index qs pos q = Some k" by (auto simp: py_index_def)
  from Cons.prems(1) obtain d qu os where d: "q = JObj d" "map_of d ''question'' = Some qu"
      "map_of d ''options'' = Some os"
    by (cases q) (auto simp: has_question_keys_def)
  from Cons.prems have "\<forall>q \<in> set rest. has_question_keys q" "Suc pos + length rest \<le> length qs"
    by simp_all
  from Cons.IH[OF this]
  obtain items where "safe_items qs (Suc pos) rest = Inr items" "length items = length rest"
      "map (\<lambda>it. Inr (question it)) items = map (\<lambda>q. py_subscript q ''question'') rest"
      "map (\<lambda>it. Inr (options it)) items = map (\<lambda>q. py_subscript q ''options'') rest"
    by blast
  with k d show ?case by (simp add: py_subscript_def)
qed

text \<open>
  C4, as stated, fails: the split is at position 15, not at half the length of the
  bank. For the bank of the tests, of length 2, the selector returns both questions
  or none, never the one question that either half would hold.
\<close>

theorem fixed_split_counterexample:
  "get_questions SetA (Bank scenario_bank)
     = Inr [\<lparr>item_id = 0, question = JStr ''What is 2+2?'',
              options = JArr [JStr ''3'', JStr ''4'', JStr ''5'', JStr ''6'']\<rparr>,
            \<lparr>item_id = 1, question = JStr ''What is the capital of France?'',
              options = JArr [JStr ''London'', JStr ''Berlin'', JStr ''Paris'', JStr ''Madrid'']\<rparr>]
   \<and> get_questions SetB (Bank scenario_bank) = Inr []
   \<and> length scenario_bank div 2 = 1
   \<and> (length scenario_bank + 1) div 2 = 1"
  by (simp add: get_questions_def scenario_bank_def py_index_def py_subscript_def)

text \<open>
  C4, amended. For a bank of length \<open>n\<close> whose entries have the two keys, the selector
  returns either the questions at the bank positions below 15, \<open>min 15 n\<close> of them,
  or those from position 15 on, \<open>n - 15\<close> of them; these are two halves of 15 for a
  bank of 30. For the empty bank, and when there is no bank file, it returns the empty
  list.
\<close>

theorem selector_fixed_split:
  assumes "\<forall>q \<in> set qs. has_question_keys q"
  shows "\<exists>items.
           get_questions choice (Bank qs) = Inr items
         \<and> length items = (case choice of SetA \<Rightarrow> min 15 (length qs) | SetB \<Rightarrow> length qs - 15)
         \<and> map (\<lambda>it. Inr (question it)) items
             = map (\<lambda>q. py_subscript q ''question'')
                   (case choice of SetA \<Rightarrow> take 15 qs | SetB \<Rightarrow> drop 15 qs)
         \<and> map (\<lambda>it. Inr (options it)) items
             = map (\<lambda>q. py_subscript q ''options'')
                   (case choice of SetA \<Rightarrow> take 15 qs | SetB \<Rightarrow> drop 15 qs)
         \<and> (length qs = 30 \<longrightarrow> length items = 15)
         \<and> get_questions choice (Bank []) = Inr []
         \<and> get_questions choice NoFile = Inr []"
proof -
  have empty: "get_questions choice (Bank []) = Inr []" "get_questions choice NoFile = Inr []"
    by (cases choice; simp add: get_questions_def)+
  show ?thesis
  proof (cases choice)
    case SetA
    have "\<forall>q \<in> set (take 15 qs). has_question_keys q"
      using assms by (auto dest: in_set_takeD)
    moreover have "0 + length (take 15 qs) \<le> length qs" by simp
    ultimately obtain items where "safe_items qs 0 (take 15 qs) = Inr items"
        "length items = length (take 15 qs)"
        "map (\<lambda>it. Inr (question it)) items = map (\<lambda>q. py_subscript q ''question'') (take 15 qs)"
        "map (\<lambda>it. Inr (options it)) items = map (\<lambda>q. py_subscript q ''options'') (take 15 qs)"
      using safe_items_ok by blast
    with SetA empty show ?thesis by (auto simp: get_questions_def)
  next
    case SetB
    have "\<forall>q \<in> set (drop 15 qs). has_question_keys q"
      using assms by (auto dest: in_set_dropD)
    moreover have "length (drop 15 qs) = 0 \<or> 15 + length (drop 15 qs) \<le> length qs" by auto
    ultimately obtain items where "safe_items qs 15 (drop 15 qs) = Inr items"
        "length items = length (drop 15 qs)"
        "map (\<lambda>it. Inr (question it)) items = map (\<lambda>q. py_subscript q ''question'') (drop 15 qs)"
        "map (\<lambda>it. Inr (options it)) items = map (\<lambda>q. py_subscript q ''options'') (drop 15 qs)"
      using safe_items_ok[of "drop 15 qs" 15 qs] by (cases "drop 15 qs") auto
    with SetB empty show ?thesis by (auto simp: get_questions_def)
  qed
qed

theorem selector_fixed_split_witness:
  "\<exists>items.
      get_questions SetA (Bank scenario_bank) = Inr items
    \<and> length items = 2
    \<and> map question items = [JStr ''What is 2+2?'', JStr ''What is the capital of France?'']"
proof -
  have 1: "\<forall>q \<in> set scenario_bank. has_question_keys q"
    by (simp add: scenario_bank_def has_question_keys_def)
  have 2: "map (\<lambda>q. py_subscript q ''question'') (take 15 scenario_bank)
             = [Inr (JStr ''What is 2+2?''), Inr (JStr ''What is the capital of France?'')]"
    by (simp add: scenario_bank_def py_subscript_def)
  have 3: "length scenario_bank = 2" by (simp add: scenario_bank_def)
  from selector_fixed_split[OF 1, of SetA]
  obtain items where it: "get_questions SetA (Bank scenario_bank) = Inr items"
      "length items = min 15 (length scenario_bank)"
      "map (\<lambda>it. Inr (question it) :: exn + json) items
         = map (\<lambda>q. py_subscript q ''question'') (take 15 scenario_bank)"
    by auto
  from it(3) 2 have "map (\<lambda>it. Inr (question it) :: exn + json) items
         = map Inr [JStr ''What is 2+2?'', JStr ''What is the capital of France?'']"
    by simp
  then have "map (Inr :: json \<Rightarrow> exn + json) (map question items)
         = map Inr [JStr ''What is 2+2?'', JStr ''What is the capital of France?'']"
    by (simp add: comp_def)
  then have "map question items = [JStr ''What is 2+2?'', JStr ''What is the capital of France?'']"
    by (simp only: inj_map_eq_map[OF inj_Inr])
  with it(1,2) 3 show ?thesis by simp
qed

text \<open>
  C3. The id of a returned item is to be the position of its question in the whole
  bank. The code looks the position up with \<^verbatim>\<open>qs.index(q)\<close>, which finds the first
  entry equal to \<open>q\<close>: in a bank that holds the same question at positions 0 and 1,
  both returned items get the id 0.
\<close>

theorem duplicate_question_same_id:
  "get_questions SetA (Bank twin_bank)
     = Inr [\<lparr>item_id = 0, question = JStr ''What is 2+2?'',
              options = JArr [JStr ''3'', JStr ''4'', JStr ''5'', JStr ''6'']\<rparr>,
            \<lparr>item_id = 0, question = JStr ''What is 2+2?'',
              options = JArr [JStr ''3'', JStr ''4'', JStr ''5'', JStr ''6'']\<rparr>]"
  by (simp add: get_questions_def twin_bank_def scenario_bank_def py_index_def py_subscript_def)

text \<open>In a bank whose entries are pairwise different the ids are the positions.\<close>

lemma safe_items_ids:
  assumes "\<forall>q \<in> set rest. has_question_keys q"
    and "rest = take m (drop pos qs)"
    and "\<forall>i < length qs. \<forall>k < i. \<not> py_eq (qs ! k) (qs ! i)"
  shows "\<exists>items. safe_items qs pos rest = Inr items
           \<and> map item_id items = [pos..<pos + length rest]"
  using assms(1,2)
proof (induction rest arbitrary: pos m)
  case Nil
  then show ?case by simp
next
  case (Cons q rest)
  from Cons.prems(2) have pos: "pos < length qs"
    by (cases "pos < length qs") auto
  from Cons.prems(2) obtain m' where m: "m = Suc m'"
    by (cases m) auto
  from Cons.prems(2) have "q # rest = take (Suc m') (qs ! pos # drop (Suc pos) qs)"
    by (simp only: m Cons_nth_drop_Suc[OF pos])
  then have q: "q = qs ! pos" and rest: "rest = take m' (drop (Suc pos) qs)"
    by simp_all
  have "\<forall>k < pos - 0. \<not> py_eq (qs ! k) q"
    using assms(3) pos q by simp
  with pos have k: "py_index qs pos q = Some pos"
    using index_from_first[of 0 pos qs q] by (simp add: py_index_def)
  from Cons.prems(1) obtain d qu os where d: "q = JObj d" "map_of d ''question'' = Some qu"
      "map_of d ''options'' = Some os"
    by (cases q) (auto simp: has_question_keys_def)
  from Cons.prems(1) have "\<forall>q \<in> set rest. has_question_keys q"
    by simp
  from Cons.IH[OF this rest]
  obtain items where "safe_items qs (Suc pos) rest = Inr items"
      "map item_id items = [Suc pos..<Suc pos + length rest]"
    by blast
  with k d show ?case by (simp add: py_subscript_def upt_conv_Cons del: upt_Suc)
qed

lemma distinct_bank_ids:
  assumes "\<forall>q \<in> set qs. has_question_keys q"
    and "\<forall>i < length qs. \<forall>k < i. \<not> py_eq (qs ! k) (qs ! i)"
  shows "\<exists>items. get_questions choice (Bank qs) = Inr items
           \<and> map item_id items
               = (case choice of SetA \<Rightarrow> [0..<min 15 (length qs)] | SetB \<Rightarrow> [15..<length qs])"
proof (cases choice)
  case SetA
  have "\<forall>q \<in> set (take 15 qs). has_question_keys q"
    using assms(1) by (auto dest: in_set_takeD)
  from safe_items_ids[OF this _ assms(2), of 15 0] SetA
  show ?thesis by (auto simp: get_questions_def min.commute)
next
  case SetB
  have "\<forall>q \<in> set (drop 15 qs). has_question_keys q"
    using assms(1) by (auto dest: in_set_dropD)
  from safe_items_ids[OF this _ assms(2), of "length qs" 15] SetB
  show ?thesis by (cases "15 \<le> length qs") (auto simp: get_questions_def)
qed


section \<open>Claims about adding a question\<close>

text \<open>The credentials of the tests.\<close>

definition test_env :: admin_env where
  "test_env = \<lparr>ADMIN_USERNAME = Some ''testadmin'', ADMIN_PASSWORD = Some ''testpass123''\<rparr>"

text \<open>
  C8. A request whose answer is not an integer index into its options is to be
  rejected with 400, the bank unchanged. The code tests \<^verbatim>\<open>isinstance(answer, int)\<close>,
  which holds of \<^verbatim>\<open>True\<close> and \<^verbatim>\<open>False\<close>: a request with the answer \<^verbatim>\<open>true\<close> is
  answered 200, and a question whose stored answer is a boolean is appended to the
  bank.
\<close>

theorem boolean_answer_accepted:
  "require_admin test_env (Some (''testadmin'', ''testpass123''))
     (admin_api_add_question (Bank scenario_bank)
        (JObj [(''question'', JStr ''Q?''), (''options'', JArr [JStr ''A'', JStr ''B'']),
               (''answer'', JBool True)]))
   = Passed
       (Reply 200
          (JObj [(''success'', JBool True), (''message'', JStr ''Question added''),
                 (''count'', JInt 3)]),
        Bank (scenario_bank
              @ [JObj [(''question'', JStr ''Q?''), (''options'', JArr [JStr ''A'', JStr ''B'']),
                       (''answer'', JBool True)]]))"
  by (simp add: require_admin_def test_env_def configured_def admin_api_add_question_def
      py_or_def py_get_def dict_get_def strip_def is_space_def read_bank_def scenario_bank_def)

theorem boolean_answer_accepted_witness:
  "(case require_admin test_env (Some (''testadmin'', ''testpass123''))
           (admin_api_add_question (Bank scenario_bank)
              (JObj [(''question'', JStr ''Q?''), (''options'', JArr [JStr ''A'', JStr ''B'']),
                     (''answer'', JBool True)])) of
      Passed rf \<Rightarrow> http_status (fst rf) = 200 \<and> length (read_bank (snd rf)) = 3
    | _ \<Rightarrow> False)
   \<and> length scenario_bank = 2"
  using boolean_answer_accepted by (simp add: read_bank_def scenario_bank_def)

text \<open>What the validation does reject, and what a success does: the scenario of the
  single option, every request whose options are no list of two or more or whose
  answer fails the test of the code, and the append with its count.\<close>

lemma add_question_one_option:
  "admin_api_add_question (Bank scenario_bank)
     (JObj [(''question'', JStr ''Q?''), (''options'', JArr [JStr ''A'']), (''answer'', JInt 0)])
   = (failure 400 ''options must be a list with at least 2 items'', Bank scenario_bank)"
  by (simp add: admin_api_add_question_def py_or_def py_get_def dict_get_def strip_def
      is_space_def)

lemma add_question_rejects:
  assumes "py_or (dict_get d ''question'' JNull) (JStr []) = JStr s"
    and "\<forall>os. py_or (dict_get d ''options'' JNull) (JArr []) = JArr os \<longrightarrow>
           length os < 2
           \<or> \<not> isinstance_int (dict_get d ''answer'' JNull)
           \<or> \<not> (0 \<le> int_value (dict_get d ''answer'' JNull)
                  \<and> int_value (dict_get d ''answer'' JNull) < int (length os))"
  shows "http_status (fst (admin_api_add_question f (JObj d))) = 400
       \<and> snd (admin_api_add_question f (JObj d)) = f"
proof (cases "d = []")
  case True
  then show ?thesis
    by (simp add: admin_api_add_question_def py_or_def py_get_def dict_get_def strip_def
        failure_def)
next
  case False
  then have data: "py_or (JObj d) (JObj []) = JObj d" by (simp add: py_or_def)
  show ?thesis
    using assms
    by (cases "py_or (dict_get d ''options'' JNull) (JArr [])")
       (auto simp: admin_api_add_question_def data py_get_def failure_def Let_def)
qed

lemma add_question_appends:
  assumes "admin_api_add_question f data = (Reply 200 body, f')"
  shows "\<exists>q. f' = Bank (read_bank f @ [q])
           \<and> body = JObj [(''success'', JBool True), (''message'', JStr ''Question added''),
                          (''count'', JInt (int (length (read_bank f @ [q]))))]"
  using assms
  by (auto simp: admin_api_add_question_def failure_def Let_def
      split: sum.splits json.splits if_splits)


end
